theory Spec2Isabelle
  imports Main
begin

section \<open>JSON values\<close>

text \<open>
  Request bodies and response bodies are JSON. An object is an association list; a
  property is read with \<open>map_of\<close>. JavaScript's \<open>undefined\<close> (an absent property) is
  \<open>None\<close> of a \<open>json option\<close>.
\<close>

datatype json =
    JNull
  | JBool bool
  | JNum int
  | JStr string
  | JArr "json list"
  | JObj "(string \<times> json) list"

fun json_keys :: "json \<Rightarrow> string list" where
  "json_keys (JObj kvs) = map fst kvs"
| "json_keys _ = []"

fun json_field :: "string \<Rightarrow> json \<Rightarrow> json option" where
  "json_field k (JObj kvs) = map_of kvs k"
| "json_field k _ = None"

section \<open>The schema (shared/schema.ts)\<close>

text \<open>
  Table \<open>users\<close>: \<open>id\<close> (primary key, default \<open>gen_random_uuid()\<close>), \<open>username\<close>
  (not null, unique), \<open>password\<close> (not null).
\<close>

record user =
  user_id :: string
  username :: string
  password :: string

text \<open>
  \<open>InsertWaitlistRegistration\<close> is the picked insert schema: \<open>firstName\<close>, \<open>lastName\<close>,
  \<open>email\<close>. \<open>WaitlistRegistration\<close> is a row of table \<open>waitlist_registrations\<close>: the three
  columns and \<open>id\<close> (primary key, default \<open>gen_random_uuid()\<close>) and \<open>createdAt\<close> (default
  now). The field \<open>id\<close> is written \<open>id'\<close>, since \<open>id\<close> is the identity function of HOL.
\<close>

record insertWaitlistRegistration =
  firstName :: string
  lastName :: string
  email :: string

record waitlistRegistration = insertWaitlistRegistration +
  id' :: string
  createdAt :: nat

record database =
  users :: "user list"
  waitlistRegistrations :: "waitlistRegistration list"

subsection \<open>Validation: \<open>insertWaitlistRegistrationSchema.safeParse\<close>\<close>

text \<open>
  \<open>createInsertSchema(waitlistRegistrations).pick({firstName, lastName, email})\<close> is, for
  three \<open>text(...).notNull()\<close> columns, the zod object schema of three \<open>z.string()\<close>
  fields, with zod's default treatment of unknown keys (they are stripped). No \<open>min(1)\<close>
  and no \<open>email()\<close> refinement is attached to it in shared/schema.ts; the client form
  adds those to its own copy of the schema.

  An issue is zod's \<open>invalid_type\<close> issue. \<open>getParsedType\<close> names the type of the value
  received.
\<close>

record zodIssue =
  code :: string
  expected :: string
  received :: string
  path :: "string list"
  message :: string

fun getParsedType :: "json option \<Rightarrow> string" where
  "getParsedType None = ''undefined''"
| "getParsedType (Some JNull) = ''null''"
| "getParsedType (Some (JBool b)) = ''boolean''"
| "getParsedType (Some (JNum n)) = ''number''"
| "getParsedType (Some (JStr s)) = ''string''"
| "getParsedType (Some (JArr xs)) = ''array''"
| "getParsedType (Some (JObj kvs)) = ''object''"

definition invalid_type :: "string \<Rightarrow> json option \<Rightarrow> string list \<Rightarrow> zodIssue" where
  "invalid_type ex v p =
     \<lparr>code = ''invalid_type'', expected = ex, received = getParsedType v, path = p,
      message = (if v = None then ''Required''
                 else ''Expected '' @ ex @ '', received '' @ getParsedType v)\<rparr>"

text \<open>\<open>z.string()\<close> at a path: any string is accepted, the empty one too.\<close>

fun parse_string :: "string list \<Rightarrow> json option \<Rightarrow> zodIssue list + string" where
  "parse_string p (Some (JStr s)) = Inr s"
| "parse_string p v = Inl [invalid_type ''string'' v p]"

fun issues_of :: "zodIssue list + 'a \<Rightarrow> zodIssue list" where
  "issues_of (Inl is) = is"
| "issues_of (Inr _) = []"

text \<open>
  The object schema parses every key of its shape and collects the issues of all of
  them, in the order of the shape; keys outside the shape are not read.
\<close>

definition insertWaitlistRegistrationSchema ::
  "json \<Rightarrow> zodIssue list + insertWaitlistRegistration" where
  "insertWaitlistRegistrationSchema req_body =
     (case req_body of
        JObj kvs \<Rightarrow>
          (let f = parse_string [''firstName''] (map_of kvs ''firstName'');
               l = parse_string [''lastName''] (map_of kvs ''lastName'');
               e = parse_string [''email''] (map_of kvs ''email'')
           in case (f, l, e) of
                (Inr fn, Inr ln, Inr em) \<Rightarrow>
                  Inr \<lparr>firstName = fn, lastName = ln, email = em\<rparr>
              | _ \<Rightarrow> Inl (issues_of f @ issues_of l @ issues_of e))
      | _ \<Rightarrow> Inl [invalid_type ''object'' (Some req_body) []])"

section \<open>The database behind the store\<close>

text \<open>
  An error thrown in the server: one raised by the database driver (an SQLSTATE code and
  the driver's detail text), or a JavaScript \<open>TypeError\<close>.
\<close>

datatype js_error =
    DatabaseError string string
  | TypeError string

text \<open>
  The store sends three queries through the \<open>db\<close> object of server/db.ts, a drizzle
  client over PostgreSQL, which is not among the sources. They are modelled over the
  tables as shared/schema.ts declares them. Each query takes the fault of its round trip:
  \<open>Some err\<close> when the database cannot be reached or the statement is aborted (nothing is
  written then), \<open>None\<close> when the statement runs.
\<close>

text \<open>
  Modelled from the spec: \<open>db.select().from(waitlistRegistrations).where(eq(email, e))\<close>
  of the missing server/db.ts, an "exact-match lookup on the unique email column" that
  "returns absent (not an error) when no row matches": the rows whose email is exactly
  \<open>e\<close>.
\<close>

definition select_where_email ::
  "js_error option \<Rightarrow> string \<Rightarrow> database \<Rightarrow> js_error + waitlistRegistration list" where
  "select_where_email fault e db =
     (case fault of
        Some err \<Rightarrow> Inl err
      | None \<Rightarrow> Inr (filter (\<lambda>r. email r = e) (waitlistRegistrations db)))"

text \<open>
  Modelled from the spec: \<open>db.insert(waitlistRegistrations).values(v).returning()\<close> of
  the missing server/db.ts, which "appends a new row with a generated identifier and
  current timestamp" and "fails with a ConstraintViolation if the email already exists".
  The row gets the defaults of the schema (\<open>gen_random_uuid()\<close> for the id, now for
  \<open>createdAt\<close>, both drawn by the database and given here as arguments). The primary key
  and the \<open>unique()\<close> constraint on \<open>email\<close> of shared/schema.ts reject the row with
  SQLSTATE 23505 (unique violation) and write nothing.
\<close>

definition insert_returning ::
  "js_error option \<Rightarrow> insertWaitlistRegistration \<Rightarrow> string \<Rightarrow> nat \<Rightarrow> database
     \<Rightarrow> (js_error + waitlistRegistration list) \<times> database" where
  "insert_returning fault v uuid t db =
     (case fault of
        Some err \<Rightarrow> (Inl err, db)
      | None \<Rightarrow>
          if uuid \<in> set (map id' (waitlistRegistrations db))
          then (Inl (DatabaseError ''23505'' ''waitlist_registrations_pkey''), db)
          else if email v \<in> set (map email (waitlistRegistrations db))
          then (Inl (DatabaseError ''23505'' ''waitlist_registrations_email_unique''), db)
          else
            (let row = \<lparr>firstName = firstName v, lastName = lastName v, email = email v,
                        id' = uuid, createdAt = t\<rparr>
             in (Inr [row], db\<lparr>waitlistRegistrations := waitlistRegistrations db @ [row]\<rparr>)))"

text \<open>
  Modelled from the spec: \<open>db.select({count: count()}).from(waitlistRegistrations)\<close> of
  the missing server/db.ts, which "returns total registration rows": one result row
  holding the count.
\<close>

definition select_count :: "js_error option \<Rightarrow> database \<Rightarrow> js_error + nat list" where
  "select_count fault db =
     (case fault of
        Some err \<Rightarrow> Inl err
      | None \<Rightarrow> Inr [length (waitlistRegistrations db)])"

section \<open>The store: \<open>DatabaseStorage\<close>\<close>

text \<open>\<open>const [registration] = await ...; return registration || undefined\<close>\<close>

definition getWaitlistRegistrationByEmail ::
  "js_error option \<Rightarrow> string \<Rightarrow> database \<Rightarrow> js_error + waitlistRegistration option" where
  "getWaitlistRegistrationByEmail fault e db =
     (case select_where_email fault e db of
        Inl err \<Rightarrow> Inl err
      | Inr [] \<Rightarrow> Inr None
      | Inr (registration # _) \<Rightarrow> Inr (Some registration))"

text \<open>
  \<open>const [registration] = await db.insert(...).values(...).returning(); return registration\<close>:
  destructuring an empty result gives \<open>undefined\<close>.
\<close>

definition createWaitlistRegistration ::
  "js_error option \<Rightarrow> insertWaitlistRegistration \<Rightarrow> string \<Rightarrow> nat \<Rightarrow> database
     \<Rightarrow> (js_error + waitlistRegistration option) \<times> database" where
  "createWaitlistRegistration fault insertRegistration uuid t db =
     (case insert_returning fault insertRegistration uuid t db of
        (Inl err, db') \<Rightarrow> (Inl err, db')
      | (Inr [], db') \<Rightarrow> (Inr None, db')
      | (Inr (registration # _), db') \<Rightarrow> (Inr (Some registration), db'))"

text \<open>\<open>return result[0]?.count || 0\<close>: a missing row and a count of 0 both give 0.\<close>

definition getWaitlistCount :: "js_error option \<Rightarrow> database \<Rightarrow> js_error + nat" where
  "getWaitlistCount fault db =
     (case select_count fault db of
        Inl err \<Rightarrow> Inl err
      | Inr [] \<Rightarrow> Inr 0
      | Inr (c # _) \<Rightarrow> Inr (if c = 0 then 0 else c))"

section \<open>The handlers (server/routes.ts)\<close>

record response =
  status :: nat
  body :: json

text \<open>
  What the surroundings of one POST request decide: the fault of each of its two round
  trips, the rows that other requests commit between its duplicate check and its insert
  (each with its own generated id and time, and each subject to the constraints of the
  table), and the id and time the database draws for its own row. A request that runs
  alone has \<open>concurrent = []\<close>.
\<close>

record env =
  lookup_fault :: "js_error option"
  concurrent :: "(insertWaitlistRegistration \<times> string \<times> nat) list"
  insert_fault :: "js_error option"
  gen_random_uuid :: string
  now :: nat

fun concurrent_commits ::
  "(insertWaitlistRegistration \<times> string \<times> nat) list \<Rightarrow> database \<Rightarrow> database" where
  "concurrent_commits [] db = db"
| "concurrent_commits ((v, uuid, t) # cs) db =
     concurrent_commits cs (snd (insert_returning None v uuid t db))"

definition issue_json :: "zodIssue \<Rightarrow> json" where
  "issue_json i =
     JObj [(''code'', JStr (code i)), (''expected'', JStr (expected i)),
           (''received'', JStr (received i)), (''path'', JArr (map JStr (path i))),
           (''message'', JStr (message i))]"

definition validation_failed :: "zodIssue list \<Rightarrow> response" where
  "validation_failed issues =
     \<lparr>status = 400,
      body = JObj [(''message'', JStr ''Validation failed''),
                   (''errors'', JArr (map issue_json issues))]\<rparr>"

definition already_registered :: response where
  "already_registered =
     \<lparr>status = 409,
      body = JObj [(''message'', JStr ''This email is already registered for the waitlist'')]\<rparr>"

definition created :: "waitlistRegistration \<Rightarrow> response" where
  "created registration =
     \<lparr>status = 201,
      body = JObj [(''message'', JStr ''Successfully added to waitlist''),
                   (''registration'',
                    JObj [(''id'', JStr (id' registration)),
                          (''firstName'', JStr (firstName registration)),
                          (''lastName'', JStr (lastName registration)),
                          (''email'', JStr (email registration))])]\<rparr>"

definition internal_server_error :: response where
  "internal_server_error =
     \<lparr>status = 500, body = JObj [(''message'', JStr ''Internal server error'')]\<rparr>"

text \<open>
  The \<open>try\<close> block of \<open>app.post("/api/waitlist", ...)\<close>: \<open>Inl\<close> is an error thrown inside
  it. Reading \<open>registration.id\<close> of \<open>undefined\<close> throws a \<open>TypeError\<close>.
\<close>

definition post_waitlist_try ::
  "env \<Rightarrow> json \<Rightarrow> database \<Rightarrow> (js_error + response) \<times> database" where
  "post_waitlist_try ev req_body db =
     (case insertWaitlistRegistrationSchema req_body of
        Inl issues \<Rightarrow> (Inr (validation_failed issues), db)
      | Inr d \<Rightarrow>
          (case getWaitlistRegistrationByEmail (lookup_fault ev) (email d) db of
             Inl err \<Rightarrow> (Inl err, db)
           | Inr (Some existingRegistration) \<Rightarrow> (Inr already_registered, db)
           | Inr None \<Rightarrow>
               (case createWaitlistRegistration (insert_fault ev)
                       \<lparr>firstName = firstName d, lastName = lastName d, email = email d\<rparr>
                       (gen_random_uuid ev) (now ev)
                       (concurrent_commits (concurrent ev) db) of
                  (Inl err, db') \<Rightarrow> (Inl err, db')
                | (Inr None, db') \<Rightarrow>
                    (Inl (TypeError ''Cannot read properties of undefined''), db')
                | (Inr (Some registration), db') \<Rightarrow> (Inr (created registration), db'))))"

text \<open>The \<open>catch\<close>: whatever was thrown, the answer is the same 500.\<close>

definition post_waitlist :: "env \<Rightarrow> json \<Rightarrow> database \<Rightarrow> response \<times> database" where
  "post_waitlist ev req_body db =
     (case post_waitlist_try ev req_body db of
        (Inl err, db') \<Rightarrow> (internal_server_error, db')
      | (Inr res, db') \<Rightarrow> (res, db'))"

text \<open>
  \<open>app.get("/api/waitlist/count", ...)\<close>: \<open>res.json({ count })\<close> answers with the default
  status 200.
\<close>

definition get_waitlist_count :: "js_error option \<Rightarrow> database \<Rightarrow> response \<times> database" where
  "get_waitlist_count fault db =
     (case getWaitlistCount fault db of
        Inl err \<Rightarrow> (internal_server_error, db)
      | Inr c \<Rightarrow> (\<lparr>status = 200, body = JObj [(''count'', JNum (int c))]\<rparr>, db))"

text \<open>
  The states of the store that the two routes can produce, from a database whose
  waitlist table is empty.
\<close>

inductive reachable :: "database \<Rightarrow> bool" where
  init: "reachable \<lparr>users = us, waitlistRegistrations = []\<rparr>"
| post: "reachable db \<Longrightarrow> reachable (snd (post_waitlist ev req_body db))"
| count: "reachable db \<Longrightarrow> reachable (snd (get_waitlist_count fault db))"

section \<open>Example requests\<close>

text \<open>
  The concrete inputs at which the theorems below are evaluated: a database with no
  row, the signup of Ada Lovelace, and the surroundings of a request that runs
  alone against a database that answers.
\<close>

definition empty_db :: database where
  "empty_db = \<lparr>users = [], waitlistRegistrations = []\<rparr>"

definition ada :: json where
  "ada = JObj [(''firstName'', JStr ''Ada''), (''lastName'', JStr ''Lovelace''),
               (''email'', JStr ''ada@example.com'')]"

definition alone :: "string \<Rightarrow> nat \<Rightarrow> env" where
  "alone uuid t = \<lparr>lookup_fault = None, concurrent = [], insert_fault = None,
                   gen_random_uuid = uuid, now = t\<rparr>"

definition ada_db :: database where
  "ada_db = \<lparr>users = [],
             waitlistRegistrations =
               [\<lparr>firstName = ''Ada'', lastName = ''Lovelace'', email = ''ada@example.com'',
                 id' = ''u1'', createdAt = 1\<rparr>]\<rparr>"

definition racing :: env where
  "racing = \<lparr>lookup_fault = None,
              concurrent = [(\<lparr>firstName = ''Ada'', lastName = ''Byron'',
                               email = ''ada@example.com''\<rparr>, ''u1'', 1)],
              insert_fault = None, gen_random_uuid = ''u2'', now = 2\<rparr>"

definition connection_refused :: js_error where
  "connection_refused = DatabaseError ''ECONNREFUSED'' ''connect ECONNREFUSED 10.0.0.5:5432''"

definition grace :: json where
  "grace = JObj [(''firstName'', JStr ''Grace''), (''lastName'', JStr ''Hopper''),
                 (''email'', JStr ''grace@example.com'')]"

section \<open>Properties of the database and the store\<close>

lemmas eval_defs = empty_db_def ada_def alone_def post_waitlist_def post_waitlist_try_def
  insertWaitlistRegistrationSchema_def getWaitlistRegistrationByEmail_def
  select_where_email_def createWaitlistRegistration_def insert_returning_def
  get_waitlist_count_def getWaitlistCount_def select_count_def
  created_def already_registered_def internal_server_error_def validation_failed_def
  issue_json_def invalid_type_def Let_def

lemma insert_returning_users:
  "users (snd (insert_returning f v u t db)) = users db"
  by (simp add: insert_returning_def Let_def split: option.splits)

lemma insert_returning_take:
  "take (length (waitlistRegistrations db))
     (waitlistRegistrations (snd (insert_returning f v u t db))) = waitlistRegistrations db"
  by (simp add: insert_returning_def Let_def split: option.splits)

lemma insert_returning_distinct:
  "distinct (map email (waitlistRegistrations db)) \<Longrightarrow>
   distinct (map email (waitlistRegistrations (snd (insert_returning f v u t db))))"
  by (simp add: insert_returning_def Let_def split: option.splits)

lemma insert_returning_length:
  "length (waitlistRegistrations db) \<le> length (waitlistRegistrations (snd (insert_returning f v u t db)))"
  by (simp add: insert_returning_def Let_def split: option.splits)

lemma concurrent_commits_users:
  "users (concurrent_commits cs db) = users db"
  by (induction cs db rule: concurrent_commits.induct) (simp_all add: insert_returning_users)

lemma concurrent_commits_distinct:
  "distinct (map email (waitlistRegistrations db)) \<Longrightarrow>
   distinct (map email (waitlistRegistrations (concurrent_commits cs db)))"
  by (induction cs db rule: concurrent_commits.induct) (simp_all add: insert_returning_distinct)

lemma concurrent_commits_length:
  "length (waitlistRegistrations db) \<le> length (waitlistRegistrations (concurrent_commits cs db))"
proof (induction cs db rule: concurrent_commits.induct)
  case (1 db)
  then show ?case by simp
next
  case (2 v uuid t cs db)
  have "length (waitlistRegistrations db)
          \<le> length (waitlistRegistrations (snd (insert_returning None v uuid t db)))"
    by (rule insert_returning_length)
  with 2 show ?case by simp
qed

lemma concurrent_commits_take:
  "take (length (waitlistRegistrations db))
     (waitlistRegistrations (concurrent_commits cs db)) = waitlistRegistrations db"
proof (induction cs db rule: concurrent_commits.induct)
  case (1 db)
  then show ?case by simp
next
  case (2 v uuid t cs db)
  let ?db1 = "snd (insert_returning None v uuid t db)"
  let ?n = "length (waitlistRegistrations db)"
  have le: "?n \<le> length (waitlistRegistrations ?db1)"
    by (rule insert_returning_length)
  have "take ?n (waitlistRegistrations (concurrent_commits cs ?db1))
          = take ?n (take (length (waitlistRegistrations ?db1))
                       (waitlistRegistrations (concurrent_commits cs ?db1)))"
    using le by (simp add: min_def)
  also have "\<dots> = take ?n (waitlistRegistrations ?db1)"
    using 2 by simp
  also have "\<dots> = waitlistRegistrations db"
    by (rule insert_returning_take)
  finally show ?case by simp
qed

lemma createWaitlistRegistration_snd:
  "snd (createWaitlistRegistration f v u t db) = snd (insert_returning f v u t db)"
  by (simp add: createWaitlistRegistration_def split: prod.splits sum.splits list.splits)


lemma data_eta:
  "\<lparr>firstName = firstName d, lastName = lastName d, email = email d\<rparr> = (d::insertWaitlistRegistration)"
  by simp

lemma lookup_miss:
  "e \<notin> set (map email (waitlistRegistrations db)) \<Longrightarrow>
   getWaitlistRegistrationByEmail None e db = Inr None"
proof -
  assume "e \<notin> set (map email (waitlistRegistrations db))"
  then have "filter (\<lambda>r. email r = e) (waitlistRegistrations db) = []"
    by (auto simp: filter_empty_conv)
  then show ?thesis
    by (simp add: getWaitlistRegistrationByEmail_def select_where_email_def)
qed

lemma lookup_hit:
  assumes "e \<in> set (map email (waitlistRegistrations db))"
  shows "getWaitlistRegistrationByEmail None e db
           = Inr (Some (hd (filter (\<lambda>r. email r = e) (waitlistRegistrations db))))"
proof -
  have "filter (\<lambda>r. email r = e) (waitlistRegistrations db) \<noteq> []"
    using assms by (auto simp: filter_empty_conv)
  then show ?thesis
    by (simp add: getWaitlistRegistrationByEmail_def select_where_email_def split: list.splits)
qed

lemma post_invalid:
  "insertWaitlistRegistrationSchema b = Inl issues \<Longrightarrow>
   post_waitlist ev b db = (validation_failed issues, db)"
  by (simp add: post_waitlist_def post_waitlist_try_def)

lemma post_lookup_error:
  "insertWaitlistRegistrationSchema b = Inr d \<Longrightarrow>
   getWaitlistRegistrationByEmail (lookup_fault ev) (email d) db = Inl err \<Longrightarrow>
   post_waitlist ev b db = (internal_server_error, db)"
  by (simp add: post_waitlist_def post_waitlist_try_def)

lemma post_conflict:
  "insertWaitlistRegistrationSchema b = Inr d \<Longrightarrow>
   getWaitlistRegistrationByEmail (lookup_fault ev) (email d) db = Inr (Some r) \<Longrightarrow>
   post_waitlist ev b db = (already_registered, db)"
  by (simp add: post_waitlist_def post_waitlist_try_def)

lemma post_insert:
  "insertWaitlistRegistrationSchema b = Inr d \<Longrightarrow>
   getWaitlistRegistrationByEmail (lookup_fault ev) (email d) db = Inr None \<Longrightarrow>
   post_waitlist ev b db =
     (case createWaitlistRegistration (insert_fault ev) d (gen_random_uuid ev) (now ev)
             (concurrent_commits (concurrent ev) db) of
        (Inl err, db') \<Rightarrow> (internal_server_error, db')
      | (Inr None, db') \<Rightarrow> (internal_server_error, db')
      | (Inr (Some registration), db') \<Rightarrow> (created registration, db'))"
  by (simp add: post_waitlist_def post_waitlist_try_def data_eta
           split: prod.splits sum.splits option.splits)

lemma create_fresh:
  "u \<notin> set (map id' (waitlistRegistrations db)) \<Longrightarrow>
   email v \<notin> set (map email (waitlistRegistrations db)) \<Longrightarrow>
   createWaitlistRegistration None v u t db =
     (Inr (Some \<lparr>firstName = firstName v, lastName = lastName v, email = email v,
                  id' = u, createdAt = t\<rparr>),
      db\<lparr>waitlistRegistrations := waitlistRegistrations db @
            [\<lparr>firstName = firstName v, lastName = lastName v, email = email v,
              id' = u, createdAt = t\<rparr>]\<rparr>)"
  by (simp add: createWaitlistRegistration_def insert_returning_def Let_def)

lemma create_duplicate_email:
  "email v \<in> set (map email (waitlistRegistrations db)) \<Longrightarrow>
   createWaitlistRegistration None v u t db =
     (Inl (DatabaseError ''23505''
             (if u \<in> set (map id' (waitlistRegistrations db))
              then ''waitlist_registrations_pkey''
              else ''waitlist_registrations_email_unique'')), db)"
  by (simp add: createWaitlistRegistration_def insert_returning_def Let_def)

text \<open>The final store of a POST request is the store itself, or the store after the
  concurrent commits and the request's own insert statement.\<close>

lemma post_waitlist_snd:
  "snd (post_waitlist ev b db) = db \<or>
   (\<exists>d. snd (post_waitlist ev b db) =
     snd (insert_returning (insert_fault ev) d (gen_random_uuid ev) (now ev)
            (concurrent_commits (concurrent ev) db)))"
proof (cases "insertWaitlistRegistrationSchema b")
  case (Inl issues)
  then show ?thesis by (simp add: post_invalid)
next
  case (Inr d)
  show ?thesis
  proof (cases "getWaitlistRegistrationByEmail (lookup_fault ev) (email d) db")
    case (Inl err)
    with Inr show ?thesis by (simp add: post_lookup_error)
  next
    case r: (Inr found)
    show ?thesis
    proof (cases found)
      case None
      have "snd (post_waitlist ev b db) =
              snd (createWaitlistRegistration (insert_fault ev) d (gen_random_uuid ev) (now ev)
                     (concurrent_commits (concurrent ev) db))"
        using Inr r None by (simp add: post_insert split: prod.splits sum.splits option.splits)
      then show ?thesis by (auto simp: createWaitlistRegistration_snd)
    next
      case (Some a)
      with Inr r show ?thesis by (simp add: post_conflict)
    qed
  qed
qed

lemma get_waitlist_count_snd: "snd (get_waitlist_count f db) = db"
  by (simp add: get_waitlist_count_def split: sum.splits)

lemma post_waitlist_distinct:
  assumes "distinct (map email (waitlistRegistrations db))"
  shows "distinct (map email (waitlistRegistrations (snd (post_waitlist ev b db))))"
proof -
  have cc: "distinct (map email (waitlistRegistrations (concurrent_commits (concurrent ev) db)))"
    using assms by (rule concurrent_commits_distinct)
  from post_waitlist_snd [of ev b db] show ?thesis
  proof
    assume "snd (post_waitlist ev b db) = db"
    with assms show ?thesis by simp
  next
    assume "\<exists>d. snd (post_waitlist ev b db) =
       snd (insert_returning (insert_fault ev) d (gen_random_uuid ev) (now ev)
              (concurrent_commits (concurrent ev) db))"
    then obtain d where "snd (post_waitlist ev b db) =
       snd (insert_returning (insert_fault ev) d (gen_random_uuid ev) (now ev)
              (concurrent_commits (concurrent ev) db))" ..
    with insert_returning_distinct [OF cc] show ?thesis by simp
  qed
qed

lemma reachable_distinct:
  "reachable db \<Longrightarrow> distinct (map email (waitlistRegistrations db))"
  by (induction rule: reachable.induct)
     (simp_all add: post_waitlist_distinct get_waitlist_count_snd)

lemma insert_returning_users_update:
  "insert_returning f v u t (db\<lparr>users := us\<rparr>) =
     (fst (insert_returning f v u t db), (snd (insert_returning f v u t db))\<lparr>users := us\<rparr>)"
  by (simp add: insert_returning_def Let_def split: option.splits)

lemma concurrent_commits_users_update:
  "concurrent_commits cs (db\<lparr>users := us\<rparr>) = (concurrent_commits cs db)\<lparr>users := us\<rparr>"
  by (induction cs db rule: concurrent_commits.induct)
     (simp_all add: insert_returning_users_update)

lemma createWaitlistRegistration_users_update:
  "createWaitlistRegistration f v u t (db\<lparr>users := us\<rparr>) =
     (fst (createWaitlistRegistration f v u t db),
      (snd (createWaitlistRegistration f v u t db))\<lparr>users := us\<rparr>)"
  by (simp add: createWaitlistRegistration_def insert_returning_users_update
           split: prod.splits sum.splits list.splits)

lemma lookup_users_update:
  "getWaitlistRegistrationByEmail f e (db\<lparr>users := us\<rparr>) = getWaitlistRegistrationByEmail f e db"
  by (simp add: getWaitlistRegistrationByEmail_def select_where_email_def split: option.splits)

lemma post_waitlist_try_users_update:
  "post_waitlist_try ev b (db\<lparr>users := us\<rparr>) =
     (fst (post_waitlist_try ev b db), (snd (post_waitlist_try ev b db))\<lparr>users := us\<rparr>)"
proof (cases "insertWaitlistRegistrationSchema b")
  case (Inl issues)
  then show ?thesis by (simp add: post_waitlist_try_def)
next
  case (Inr d)
  show ?thesis
  proof (cases "getWaitlistRegistrationByEmail (lookup_fault ev) (email d) db")
    case (Inl err)
    with Inr show ?thesis by (simp add: post_waitlist_try_def lookup_users_update)
  next
    case found: (Inr found)
    show ?thesis
    proof (cases found)
      case (Some r)
      with Inr found show ?thesis by (simp add: post_waitlist_try_def lookup_users_update)
    next
      case None
      obtain r db' where c:
        "createWaitlistRegistration (insert_fault ev) d (gen_random_uuid ev) (now ev)
           (concurrent_commits (concurrent ev) db) = (r, db')"
        by (cases "createWaitlistRegistration (insert_fault ev) d (gen_random_uuid ev) (now ev)
                     (concurrent_commits (concurrent ev) db)")
      with Inr found None show ?thesis
        by (simp add: post_waitlist_try_def lookup_users_update data_eta
              concurrent_commits_users_update createWaitlistRegistration_users_update
              split: sum.splits option.splits)
    qed
  qed
qed

lemma post_waitlist_users_update:
  "post_waitlist ev b (db\<lparr>users := us\<rparr>) =
     (fst (post_waitlist ev b db), (snd (post_waitlist ev b db))\<lparr>users := us\<rparr>)"
  by (simp add: post_waitlist_def post_waitlist_try_users_update split: prod.splits sum.splits)

lemma post_waitlist_users: "users (snd (post_waitlist ev b db)) = users db"
  using post_waitlist_snd [of ev b db]
  by (auto simp: insert_returning_users concurrent_commits_users)

lemma post_waitlist_take:
  "take (length (waitlistRegistrations db))
     (waitlistRegistrations (snd (post_waitlist ev b db))) = waitlistRegistrations db"
proof -
  let ?n = "length (waitlistRegistrations db)"
  let ?cc = "concurrent_commits (concurrent ev) db"
  from post_waitlist_snd [of ev b db] show ?thesis
  proof
    assume "snd (post_waitlist ev b db) = db"
    then show ?thesis by simp
  next
    assume "\<exists>d. snd (post_waitlist ev b db) =
       snd (insert_returning (insert_fault ev) d (gen_random_uuid ev) (now ev) ?cc)"
    then obtain d where eq: "snd (post_waitlist ev b db) =
       snd (insert_returning (insert_fault ev) d (gen_random_uuid ev) (now ev) ?cc)" ..
    let ?db2 = "snd (insert_returning (insert_fault ev) d (gen_random_uuid ev) (now ev) ?cc)"
    have le: "?n \<le> length (waitlistRegistrations ?cc)"
      by (rule concurrent_commits_length)
    have "take ?n (waitlistRegistrations ?db2)
            = take ?n (take (length (waitlistRegistrations ?cc)) (waitlistRegistrations ?db2))"
      using le by (simp add: min_def)
    also have "\<dots> = take ?n (waitlistRegistrations ?cc)"
      by (simp only: insert_returning_take)
    also have "\<dots> = waitlistRegistrations db"
      by (rule concurrent_commits_take)
    finally show ?thesis using eq by simp
  qed
qed

lemma get_waitlist_count_users_update:
  "fst (get_waitlist_count f (db\<lparr>users := us\<rparr>)) = fst (get_waitlist_count f db)"
  by (simp add: get_waitlist_count_def getWaitlistCount_def select_count_def
           split: option.splits sum.splits)

lemma insert_returning_error_snd:
  "fst (insert_returning f v u t db) = Inl err \<Longrightarrow> snd (insert_returning f v u t db) = db"
  by (simp add: insert_returning_def Let_def split: option.splits if_splits)

lemma createWaitlistRegistration_error:
  "fst (createWaitlistRegistration f v u t db) = Inl err \<Longrightarrow>
   createWaitlistRegistration f v u t db = (Inl err, db)"
  by (auto simp: createWaitlistRegistration_def insert_returning_def Let_def
           split: option.splits if_splits)

lemma createWaitlistRegistration_ok:
  "fst (createWaitlistRegistration f v u t db) = Inr r \<Longrightarrow>
   r = Some \<lparr>firstName = firstName v, lastName = lastName v, email = email v,
             id' = u, createdAt = t\<rparr> \<and>
   waitlistRegistrations (snd (createWaitlistRegistration f v u t db)) =
     waitlistRegistrations db @
       [\<lparr>firstName = firstName v, lastName = lastName v, email = email v,
         id' = u, createdAt = t\<rparr>]"
  by (auto simp: createWaitlistRegistration_def insert_returning_def Let_def
           split: option.splits if_splits)

lemma post_created:
  assumes "status (fst (post_waitlist ev b db)) = 201"
  shows "\<exists>d. insertWaitlistRegistrationSchema b = Inr d \<and>
           fst (post_waitlist ev b db) =
             created \<lparr>firstName = firstName d, lastName = lastName d, email = email d,
                      id' = gen_random_uuid ev, createdAt = now ev\<rparr> \<and>
           waitlistRegistrations (snd (post_waitlist ev b db)) =
             waitlistRegistrations (concurrent_commits (concurrent ev) db) @
               [\<lparr>firstName = firstName d, lastName = lastName d, email = email d,
                 id' = gen_random_uuid ev, createdAt = now ev\<rparr>]"
proof (cases "insertWaitlistRegistrationSchema b")
  case (Inl issues)
  with assms show ?thesis by (simp add: post_invalid validation_failed_def)
next
  case (Inr d)
  show ?thesis
  proof (cases "getWaitlistRegistrationByEmail (lookup_fault ev) (email d) db")
    case (Inl err)
    with Inr assms show ?thesis by (simp add: post_lookup_error internal_server_error_def)
  next
    case found: (Inr found)
    show ?thesis
    proof (cases found)
      case (Some r)
      with Inr found assms show ?thesis by (simp add: post_conflict already_registered_def)
    next
      case None
      let ?c = "createWaitlistRegistration (insert_fault ev) d (gen_random_uuid ev) (now ev)
                  (concurrent_commits (concurrent ev) db)"
      note p = post_insert [OF Inr found [unfolded None]]
      show ?thesis
      proof (cases "fst ?c")
        case (Inl err)
        then have "?c = (Inl err, concurrent_commits (concurrent ev) db)"
          by (rule createWaitlistRegistration_error)
        with p assms show ?thesis by (simp add: internal_server_error_def)
      next
        case r: (Inr r)
        from createWaitlistRegistration_ok [OF r] obtain
          rs: "r = Some \<lparr>firstName = firstName d, lastName = lastName d, email = email d,
                         id' = gen_random_uuid ev, createdAt = now ev\<rparr>" and
          rows: "waitlistRegistrations (snd ?c) =
                   waitlistRegistrations (concurrent_commits (concurrent ev) db) @
                     [\<lparr>firstName = firstName d, lastName = lastName d, email = email d,
                       id' = gen_random_uuid ev, createdAt = now ev\<rparr>]"
          by blast
        obtain x db' where c: "?c = (x, db')" by (cases ?c)
        with r rs rows p Inr show ?thesis by simp
      qed
    qed
  qed
qed

lemma filter_email_none:
  "e \<notin> set (map email rows) \<Longrightarrow> filter (\<lambda>r. email r = e) rows = []"
  by (induction rows) auto

text \<open>What the validation does reject: a field that is missing or is not a string.\<close>

lemma parse_string_Inr: "parse_string p v = Inr s \<longleftrightarrow> v = Some (JStr s)"
  by (cases "(p, v)" rule: parse_string.cases) simp_all

lemma schema_accepts_iff:
  "insertWaitlistRegistrationSchema b = Inr d \<longleftrightarrow>
     json_field ''firstName'' b = Some (JStr (firstName d)) \<and>
     json_field ''lastName'' b = Some (JStr (lastName d)) \<and>
     json_field ''email'' b = Some (JStr (email d))"
proof (cases b)
  case (JObj kvs)
  show ?thesis
  proof (cases "parse_string [''firstName''] (map_of kvs ''firstName'')")
    case f: (Inl a)
    then have "\<forall>s. map_of kvs ''firstName'' \<noteq> Some (JStr s)"
      by (metis parse_string_Inr sum.distinct(1))
    with f JObj show ?thesis
      by (simp add: insertWaitlistRegistrationSchema_def Let_def)
  next
    case f: (Inr fn)
    show ?thesis
    proof (cases "parse_string [''lastName''] (map_of kvs ''lastName'')")
      case l: (Inl a)
      then have "\<forall>s. map_of kvs ''lastName'' \<noteq> Some (JStr s)"
        by (metis parse_string_Inr sum.distinct(1))
      with f l JObj show ?thesis
        by (simp add: insertWaitlistRegistrationSchema_def Let_def)
    next
      case l: (Inr ln)
      show ?thesis
      proof (cases "parse_string [''email''] (map_of kvs ''email'')")
        case e: (Inl a)
        then have "\<forall>s. map_of kvs ''email'' \<noteq> Some (JStr s)"
          by (metis parse_string_Inr sum.distinct(1))
        with f l e JObj show ?thesis
          by (simp add: insertWaitlistRegistrationSchema_def Let_def)
      next
        case e: (Inr em)
        from f l e have "map_of kvs ''firstName'' = Some (JStr fn)"
          "map_of kvs ''lastName'' = Some (JStr ln)" "map_of kvs ''email'' = Some (JStr em)"
          by (simp_all add: parse_string_Inr)
        with f l e JObj show ?thesis
          by (cases d) (auto simp: insertWaitlistRegistrationSchema_def Let_def)
      qed
    qed
  qed
qed (simp_all add: insertWaitlistRegistrationSchema_def)

lemma schema_rejects:
  assumes "k \<in> {''firstName'', ''lastName'', ''email''}"
      and "\<forall>s. map_of kvs k \<noteq> Some (JStr s)"
  shows "\<exists>issues. insertWaitlistRegistrationSchema (JObj kvs) = Inl issues"
proof -
  have "\<forall>s. parse_string [k] (map_of kvs k) \<noteq> Inr s"
    using assms(2) by (simp add: parse_string_Inr)
  then show ?thesis
    using assms(1)
    by (auto simp: insertWaitlistRegistrationSchema_def Let_def split: sum.splits)
qed

lemma missing_or_non_string_field_is_400:
  assumes "k \<in> {''firstName'', ''lastName'', ''email''}"
      and "\<forall>s. map_of kvs k \<noteq> Some (JStr s)"
  shows "status (fst (post_waitlist ev (JObj kvs) db)) = 400 \<and>
         snd (post_waitlist ev (JObj kvs) db) = db"
proof -
  from schema_rejects [OF assms] obtain issues where
    "insertWaitlistRegistrationSchema (JObj kvs) = Inl issues" ..
  then show ?thesis by (simp add: post_invalid validation_failed_def)
qed

section \<open>The claims\<close>

text \<open>
  C1. In every state of the store that the two routes can produce, no two rows of the
  waitlist table hold the same email, and so after any two submissions of one payload.
  In particular, for a payload submitted twice in sequence: when it passes validation,
  no row holds its email, and the first request runs alone against a database that
  answers and draws an unused id, the first answer is 201; and whenever the first answer
  is 201 and the lookup of the second request answers, the second answer is 409, the
  second request leaves the table as the first left it, and exactly one row holds that
  email.
\<close>

theorem one_row_per_email:
  assumes "reachable db"
  shows "distinct (map email (waitlistRegistrations db)) \<and>
    distinct (map email (waitlistRegistrations
       (snd (post_waitlist ev2 b (snd (post_waitlist ev1 b db)))))) \<and>
    (insertWaitlistRegistrationSchema b = Inr d \<and>
     email d \<notin> set (map email (waitlistRegistrations db)) \<and>
     gen_random_uuid ev1 \<notin> set (map id' (waitlistRegistrations db)) \<and>
     lookup_fault ev1 = None \<and> insert_fault ev1 = None \<and> concurrent ev1 = []
     \<longrightarrow> status (fst (post_waitlist ev1 b db)) = 201) \<and>
    (insertWaitlistRegistrationSchema b = Inr d \<and>
     status (fst (post_waitlist ev1 b db)) = 201 \<and> lookup_fault ev2 = None
     \<longrightarrow> status (fst (post_waitlist ev2 b (snd (post_waitlist ev1 b db)))) = 409 \<and>
         snd (post_waitlist ev2 b (snd (post_waitlist ev1 b db)))
           = snd (post_waitlist ev1 b db) \<and>
         length (filter (\<lambda>r. email r = email d)
                   (waitlistRegistrations
                      (snd (post_waitlist ev2 b (snd (post_waitlist ev1 b db)))))) = 1)"
proof (intro conjI impI)
  show "distinct (map email (waitlistRegistrations db))"
    using assms by (rule reachable_distinct)
  have "reachable (snd (post_waitlist ev2 b (snd (post_waitlist ev1 b db))))"
    using assms by (intro reachable.post)
  then show inv2: "distinct (map email (waitlistRegistrations
       (snd (post_waitlist ev2 b (snd (post_waitlist ev1 b db))))))"
    by (rule reachable_distinct)
  {
    assume a: "insertWaitlistRegistrationSchema b = Inr d \<and>
     email d \<notin> set (map email (waitlistRegistrations db)) \<and>
     gen_random_uuid ev1 \<notin> set (map id' (waitlistRegistrations db)) \<and>
     lookup_fault ev1 = None \<and> insert_fault ev1 = None \<and> concurrent ev1 = []"
    then have valid: "insertWaitlistRegistrationSchema b = Inr d" by simp
    have miss: "getWaitlistRegistrationByEmail (lookup_fault ev1) (email d) db = Inr None"
      using a by (simp add: lookup_miss)
    show "status (fst (post_waitlist ev1 b db)) = 201"
      using a by (simp add: post_insert [OF valid miss] create_fresh created_def)
  }
  assume c: "insertWaitlistRegistrationSchema b = Inr d \<and>
     status (fst (post_waitlist ev1 b db)) = 201 \<and> lookup_fault ev2 = None"
  let ?db1 = "snd (post_waitlist ev1 b db)"
  from c have valid: "insertWaitlistRegistrationSchema b = Inr d" by simp
  from c have "status (fst (post_waitlist ev1 b db)) = 201" by simp
  from post_created [OF this] valid
  have rows: "waitlistRegistrations ?db1 =
             waitlistRegistrations (concurrent_commits (concurrent ev1) db) @
               [\<lparr>firstName = firstName d, lastName = lastName d, email = email d,
                 id' = gen_random_uuid ev1, createdAt = now ev1\<rparr>]"
    by auto
  then have "email d \<in> set (map email (waitlistRegistrations ?db1))" by simp
  then have "getWaitlistRegistrationByEmail (lookup_fault ev2) (email d) ?db1
          = Inr (Some (hd (filter (\<lambda>r. email r = email d) (waitlistRegistrations ?db1))))"
    using c by (simp only: lookup_hit)
  then have second: "post_waitlist ev2 b ?db1 = (already_registered, ?db1)"
    by (rule post_conflict [OF valid])
  show "status (fst (post_waitlist ev2 b ?db1)) = 409"
    by (simp add: second already_registered_def)
  show "snd (post_waitlist ev2 b ?db1) = ?db1"
    by (simp add: second)
  have "distinct (map email (waitlistRegistrations ?db1))"
    using inv2 by (simp add: second)
  then have "email d \<notin> set (map email
                (waitlistRegistrations (concurrent_commits (concurrent ev1) db)))"
    by (simp add: rows)
  then have "filter (\<lambda>r. email r = email d)
               (waitlistRegistrations (concurrent_commits (concurrent ev1) db)) = []"
    by (rule filter_email_none)
  then show "length (filter (\<lambda>r. email r = email d)
               (waitlistRegistrations (snd (post_waitlist ev2 b ?db1)))) = 1"
    by (simp add: second rows)
qed

theorem one_row_per_email_witness:
  "reachable ada_db \<and>
   distinct (map email (waitlistRegistrations ada_db)) \<and>
   status (fst (post_waitlist (alone ''u2'' 2) grace ada_db)) = 201 \<and>
   status (fst (post_waitlist (alone ''u3'' 3) grace
                  (snd (post_waitlist (alone ''u2'' 2) grace ada_db)))) = 409 \<and>
   map email (waitlistRegistrations
     (snd (post_waitlist (alone ''u3'' 3) grace
             (snd (post_waitlist (alone ''u2'' 2) grace ada_db)))))
     = [''ada@example.com'', ''grace@example.com'']"
proof -
  have "reachable (snd (post_waitlist (alone ''u1'' 1) ada empty_db))"
    unfolding empty_db_def by (rule reachable.post [OF reachable.init])
  moreover have "snd (post_waitlist (alone ''u1'' 1) ada empty_db) = ada_db"
    by (simp add: eval_defs ada_db_def)
  ultimately have r: "reachable ada_db" by simp
  let ?d = "\<lparr>firstName = ''Grace'', lastName = ''Hopper'', email = ''grace@example.com''\<rparr>"
  have valid: "insertWaitlistRegistrationSchema grace = Inr ?d"
    by (simp add: grace_def insertWaitlistRegistrationSchema_def)
  have rows: "map email (waitlistRegistrations
     (snd (post_waitlist (alone ''u3'' 3) grace
             (snd (post_waitlist (alone ''u2'' 2) grace ada_db)))))
     = [''ada@example.com'', ''grace@example.com'']"
    by (simp add: eval_defs ada_db_def grace_def)
  note t = one_row_per_email [OF r, of "alone ''u3'' 3" grace "alone ''u2'' 2" ?d]
  have inv: "distinct (map email (waitlistRegistrations ada_db))"
    by (rule t [THEN conjunct1])
  have hyp1: "insertWaitlistRegistrationSchema grace = Inr ?d \<and>
     email ?d \<notin> set (map email (waitlistRegistrations ada_db)) \<and>
     gen_random_uuid (alone ''u2'' 2) \<notin> set (map id' (waitlistRegistrations ada_db)) \<and>
     lookup_fault (alone ''u2'' 2) = None \<and> insert_fault (alone ''u2'' 2) = None \<and>
     concurrent (alone ''u2'' 2) = []"
    using valid by (simp add: alone_def ada_db_def)
  have first: "status (fst (post_waitlist (alone ''u2'' 2) grace ada_db)) = 201"
    by (rule t [THEN conjunct2, THEN conjunct2, THEN conjunct1, THEN mp, OF hyp1])
  have hyp2: "insertWaitlistRegistrationSchema grace = Inr ?d \<and>
     status (fst (post_waitlist (alone ''u2'' 2) grace ada_db)) = 201 \<and>
     lookup_fault (alone ''u3'' 3) = None"
    using valid first by (simp add: alone_def)
  have second: "status (fst (post_waitlist (alone ''u3'' 3) grace
                  (snd (post_waitlist (alone ''u2'' 2) grace ada_db)))) = 409"
    by (rule t [THEN conjunct2, THEN conjunct2, THEN conjunct2, THEN mp, OF hyp2,
                THEN conjunct1])
  show ?thesis
    by (intro conjI r inv first second rows)
qed

text \<open>
  C2. A payload that passes validation, with an email that no row holds, submitted
  alone to a database that answers and draws an unused id: POST /api/waitlist answers 201
  with a registration of the generated id and the submitted \<open>firstName\<close>, \<open>lastName\<close> and
  \<open>email\<close>; the table gains exactly that one row, and the count read afterwards is the
  count before plus 1. The validated data \<open>d\<close> are the three string fields of the body
  (\<open>schema_accepts_iff\<close>).
\<close>

theorem fresh_signup_is_created:
  assumes valid: "insertWaitlistRegistrationSchema b = Inr d"
      and fresh: "email d \<notin> set (map email (waitlistRegistrations db))"
      and uuid: "gen_random_uuid ev \<notin> set (map id' (waitlistRegistrations db))"
      and quiet: "lookup_fault ev = None" "insert_fault ev = None" "concurrent ev = []"
  shows "post_waitlist ev b db =
           (\<lparr>status = 201,
             body = JObj [(''message'', JStr ''Successfully added to waitlist''),
                          (''registration'',
                           JObj [(''id'', JStr (gen_random_uuid ev)),
                                 (''firstName'', JStr (firstName d)),
                                 (''lastName'', JStr (lastName d)),
                                 (''email'', JStr (email d))])]\<rparr>,
            db\<lparr>waitlistRegistrations := waitlistRegistrations db @
                  [\<lparr>firstName = firstName d, lastName = lastName d, email = email d,
                    id' = gen_random_uuid ev, createdAt = now ev\<rparr>]\<rparr>)
       \<and> getWaitlistCount None (snd (post_waitlist ev b db))
           = Inr (length (waitlistRegistrations db) + 1)
       \<and> getWaitlistCount None db = Inr (length (waitlistRegistrations db))"
proof -
  have miss: "getWaitlistRegistrationByEmail (lookup_fault ev) (email d) db = Inr None"
    using fresh quiet(1) by (simp add: lookup_miss)
  have "post_waitlist ev b db =
          (created \<lparr>firstName = firstName d, lastName = lastName d, email = email d,
                    id' = gen_random_uuid ev, createdAt = now ev\<rparr>,
           db\<lparr>waitlistRegistrations := waitlistRegistrations db @
                 [\<lparr>firstName = firstName d, lastName = lastName d, email = email d,
                   id' = gen_random_uuid ev, createdAt = now ev\<rparr>]\<rparr>)"
    using fresh uuid quiet by (simp add: post_insert [OF valid miss] create_fresh)
  then show ?thesis
    by (simp add: created_def getWaitlistCount_def select_count_def)
qed

theorem fresh_signup_is_created_witness:
  "post_waitlist (alone ''u1'' 1) ada empty_db =
     (\<lparr>status = 201,
       body = JObj [(''message'', JStr ''Successfully added to waitlist''),
                    (''registration'',
                     JObj [(''id'', JStr ''u1''), (''firstName'', JStr ''Ada''),
                           (''lastName'', JStr ''Lovelace''),
                           (''email'', JStr ''ada@example.com'')])]\<rparr>,
      \<lparr>users = [],
       waitlistRegistrations =
         [\<lparr>firstName = ''Ada'', lastName = ''Lovelace'', email = ''ada@example.com'',
           id' = ''u1'', createdAt = 1\<rparr>]\<rparr>)
   \<and> getWaitlistCount None (snd (post_waitlist (alone ''u1'' 1) ada empty_db)) = Inr 1
   \<and> getWaitlistCount None empty_db = Inr 0"
proof -
  have valid: "insertWaitlistRegistrationSchema ada
                 = Inr \<lparr>firstName = ''Ada'', lastName = ''Lovelace'', email = ''ada@example.com''\<rparr>"
    by (simp add: ada_def insertWaitlistRegistrationSchema_def)
  show ?thesis
    using fresh_signup_is_created [OF valid, of empty_db "alone ''u1'' 1"]
    by (simp add: empty_db_def alone_def getWaitlistCount_def select_count_def)
qed

text \<open>
  C3. A payload that passes validation, with an email that some row already holds
  (the names may be any strings), and a lookup that answers: POST /api/waitlist answers
  409, inserts nothing and returns the database as it was, so the count is the same.
\<close>

theorem registered_email_is_conflict:
  assumes valid: "insertWaitlistRegistrationSchema b = Inr d"
      and present: "email d \<in> set (map email (waitlistRegistrations db))"
      and quiet: "lookup_fault ev = None"
  shows "post_waitlist ev b db =
           (\<lparr>status = 409,
             body = JObj [(''message'',
                           JStr ''This email is already registered for the waitlist'')]\<rparr>, db)
       \<and> getWaitlistCount None (snd (post_waitlist ev b db)) = getWaitlistCount None db"
proof -
  have "getWaitlistRegistrationByEmail (lookup_fault ev) (email d) db
          = Inr (Some (hd (filter (\<lambda>r. email r = email d) (waitlistRegistrations db))))"
    using present quiet by (simp add: lookup_hit)
  then have "post_waitlist ev b db = (already_registered, db)"
    by (rule post_conflict [OF valid])
  then show ?thesis by (simp add: already_registered_def)
qed

theorem registered_email_is_conflict_witness:
  "post_waitlist (alone ''u2'' 2)
     (JObj [(''firstName'', JStr ''Augusta''), (''lastName'', JStr ''King''),
            (''email'', JStr ''ada@example.com'')]) ada_db
   = (\<lparr>status = 409,
       body = JObj [(''message'',
                     JStr ''This email is already registered for the waitlist'')]\<rparr>, ada_db)
   \<and> getWaitlistCount None ada_db = Inr 1"
proof -
  have valid: "insertWaitlistRegistrationSchema
                 (JObj [(''firstName'', JStr ''Augusta''), (''lastName'', JStr ''King''),
                        (''email'', JStr ''ada@example.com'')])
                 = Inr \<lparr>firstName = ''Augusta'', lastName = ''King'', email = ''ada@example.com''\<rparr>"
    by (simp add: insertWaitlistRegistrationSchema_def)
  have count: "getWaitlistCount None ada_db = Inr 1"
    by (simp add: ada_db_def getWaitlistCount_def select_count_def)
  show ?thesis
    using registered_email_is_conflict [OF valid, of ada_db "alone ''u2'' 2"] count
    by (simp add: ada_db_def alone_def)
qed

text \<open>
  C4. The validation the handler runs accepts every string: names that are empty and
  an email that is no email address pass it, and the row is inserted with a 201, where
  the claim expects a 400 and an unchanged count.
\<close>

theorem blank_names_and_malformed_email_are_accepted:
  "post_waitlist (alone ''u1'' 1)
     (JObj [(''firstName'', JStr ''''), (''lastName'', JStr ''''),
            (''email'', JStr ''not-an-email'')]) empty_db
   = (\<lparr>status = 201,
       body = JObj [(''message'', JStr ''Successfully added to waitlist''),
                    (''registration'',
                     JObj [(''id'', JStr ''u1''), (''firstName'', JStr ''''),
                           (''lastName'', JStr ''''), (''email'', JStr ''not-an-email'')])]\<rparr>,
      \<lparr>users = [],
       waitlistRegistrations =
         [\<lparr>firstName = '''', lastName = '''', email = ''not-an-email'',
           id' = ''u1'', createdAt = 1\<rparr>]\<rparr>)"
  by (simp add: eval_defs)

text \<open>
  C5, as stated, fails. A competing request commits a row for ada@example.com between
  the duplicate check and the insert of this request: the check finds nothing, the
  insert raises the unique violation, and the handler answers 500, not 409.
\<close>

theorem insert_time_violation_counterexample:
  "getWaitlistRegistrationByEmail (lookup_fault racing) ''ada@example.com'' empty_db = Inr None \<and>
   fst (createWaitlistRegistration (insert_fault racing)
          \<lparr>firstName = ''Ada'', lastName = ''Lovelace'', email = ''ada@example.com''\<rparr>
          (gen_random_uuid racing) (now racing)
          (concurrent_commits (concurrent racing) empty_db))
     = Inl (DatabaseError ''23505'' ''waitlist_registrations_email_unique'') \<and>
   status (fst (post_waitlist racing ada empty_db)) \<noteq> 409 \<and>
   status (fst (post_waitlist racing ada empty_db)) = 500"
  by (simp add: eval_defs racing_def)

text \<open>
  C5, amended. When the duplicate check finds no row and a competing insert of the
  same email commits before this request's insert, the insert raises a unique violation
  (SQLSTATE 23505), the handler catches it and answers with the generic 500, and the
  table is left as the competing requests made it: no second row for the email.
\<close>

theorem insert_time_violation_is_500:
  assumes valid: "insertWaitlistRegistrationSchema b = Inr d"
      and quiet: "lookup_fault ev = None" "insert_fault ev = None"
      and before: "email d \<notin> set (map email (waitlistRegistrations db))"
      and after: "email d \<in> set (map email
                     (waitlistRegistrations (concurrent_commits (concurrent ev) db)))"
  shows "getWaitlistRegistrationByEmail (lookup_fault ev) (email d) db = Inr None \<and>
         fst (createWaitlistRegistration (insert_fault ev) d (gen_random_uuid ev) (now ev)
                (concurrent_commits (concurrent ev) db))
           = Inl (DatabaseError ''23505''
                    (if gen_random_uuid ev \<in> set (map id'
                          (waitlistRegistrations (concurrent_commits (concurrent ev) db)))
                     then ''waitlist_registrations_pkey''
                     else ''waitlist_registrations_email_unique'')) \<and>
         post_waitlist ev b db =
           (\<lparr>status = 500, body = JObj [(''message'', JStr ''Internal server error'')]\<rparr>,
            concurrent_commits (concurrent ev) db)"
proof -
  have miss: "getWaitlistRegistrationByEmail (lookup_fault ev) (email d) db = Inr None"
    using before quiet(1) by (simp add: lookup_miss)
  have c: "createWaitlistRegistration (insert_fault ev) d (gen_random_uuid ev) (now ev)
             (concurrent_commits (concurrent ev) db)
           = (Inl (DatabaseError ''23505''
                    (if gen_random_uuid ev \<in> set (map id'
                          (waitlistRegistrations (concurrent_commits (concurrent ev) db)))
                     then ''waitlist_registrations_pkey''
                     else ''waitlist_registrations_email_unique'')),
              concurrent_commits (concurrent ev) db)"
    using after quiet(2) by (simp only: create_duplicate_email)
  show ?thesis
    by (simp add: miss c post_insert [OF valid miss] internal_server_error_def)
qed

theorem insert_time_violation_is_500_witness:
  "post_waitlist racing ada empty_db =
     (\<lparr>status = 500, body = JObj [(''message'', JStr ''Internal server error'')]\<rparr>,
      \<lparr>users = [],
       waitlistRegistrations =
         [\<lparr>firstName = ''Ada'', lastName = ''Byron'', email = ''ada@example.com'',
           id' = ''u1'', createdAt = 1\<rparr>]\<rparr>)"
proof -
  have valid: "insertWaitlistRegistrationSchema ada
                 = Inr \<lparr>firstName = ''Ada'', lastName = ''Lovelace'', email = ''ada@example.com''\<rparr>"
    by (simp add: ada_def insertWaitlistRegistrationSchema_def)
  have cc: "concurrent_commits (concurrent racing) empty_db =
      \<lparr>users = [],
       waitlistRegistrations =
         [\<lparr>firstName = ''Ada'', lastName = ''Byron'', email = ''ada@example.com'',
           id' = ''u1'', createdAt = 1\<rparr>]\<rparr>"
    by (simp add: racing_def empty_db_def insert_returning_def Let_def)
  show ?thesis
    using insert_time_violation_is_500 [OF valid, of racing empty_db]
    by (simp add: cc) (simp add: racing_def empty_db_def)
qed

text \<open>
  C6. Whatever error a store operation throws (the lookup or the insert of
  POST /api/waitlist, the count of GET /api/waitlist/count), the handler answers with one
  fixed response, status 500 and body \<open>{message: "Internal server error"}\<close>, in which
  nothing of the error appears, and the failed operation has written nothing.
\<close>

theorem store_errors_become_generic_500:
  "(insertWaitlistRegistrationSchema b = Inr d \<and>
    getWaitlistRegistrationByEmail (lookup_fault ev) (email d) db = Inl err
      \<longrightarrow> post_waitlist ev b db = (internal_server_error, db)) \<and>
   (insertWaitlistRegistrationSchema b = Inr d \<and>
    getWaitlistRegistrationByEmail (lookup_fault ev) (email d) db = Inr None \<and>
    fst (createWaitlistRegistration (insert_fault ev) d (gen_random_uuid ev) (now ev)
           (concurrent_commits (concurrent ev) db)) = Inl err
      \<longrightarrow> post_waitlist ev b db =
            (internal_server_error, concurrent_commits (concurrent ev) db)) \<and>
   (getWaitlistCount f db = Inl err
      \<longrightarrow> get_waitlist_count f db = (internal_server_error, db)) \<and>
   internal_server_error =
     \<lparr>status = 500, body = JObj [(''message'', JStr ''Internal server error'')]\<rparr>"
proof (intro conjI impI)
  assume "insertWaitlistRegistrationSchema b = Inr d \<and>
    getWaitlistRegistrationByEmail (lookup_fault ev) (email d) db = Inl err"
  then show "post_waitlist ev b db = (internal_server_error, db)"
    by (simp add: post_lookup_error)
next
  assume a: "insertWaitlistRegistrationSchema b = Inr d \<and>
    getWaitlistRegistrationByEmail (lookup_fault ev) (email d) db = Inr None \<and>
    fst (createWaitlistRegistration (insert_fault ev) d (gen_random_uuid ev) (now ev)
           (concurrent_commits (concurrent ev) db)) = Inl err"
  then have "createWaitlistRegistration (insert_fault ev) d (gen_random_uuid ev) (now ev)
           (concurrent_commits (concurrent ev) db)
           = (Inl err, concurrent_commits (concurrent ev) db)"
    by (simp add: createWaitlistRegistration_error)
  with a show "post_waitlist ev b db =
            (internal_server_error, concurrent_commits (concurrent ev) db)"
    by (simp add: post_insert)
next
  assume "getWaitlistCount f db = Inl err"
  then show "get_waitlist_count f db = (internal_server_error, db)"
    by (simp add: get_waitlist_count_def)
next
  show "internal_server_error =
     \<lparr>status = 500, body = JObj [(''message'', JStr ''Internal server error'')]\<rparr>"
    by (simp add: internal_server_error_def)
qed

theorem store_errors_become_generic_500_witness:
  "post_waitlist ((alone ''u1'' 1)\<lparr>lookup_fault := Some connection_refused\<rparr>) ada empty_db
     = (\<lparr>status = 500, body = JObj [(''message'', JStr ''Internal server error'')]\<rparr>, empty_db) \<and>
   post_waitlist ((alone ''u1'' 1)\<lparr>insert_fault := Some connection_refused\<rparr>) ada empty_db
     = (\<lparr>status = 500, body = JObj [(''message'', JStr ''Internal server error'')]\<rparr>, empty_db) \<and>
   get_waitlist_count (Some connection_refused) empty_db
     = (\<lparr>status = 500, body = JObj [(''message'', JStr ''Internal server error'')]\<rparr>, empty_db)"
proof -
  let ?d = "\<lparr>firstName = ''Ada'', lastName = ''Lovelace'', email = ''ada@example.com''\<rparr>"
  let ?e1 = "(alone ''u1'' 1)\<lparr>lookup_fault := Some connection_refused\<rparr>"
  let ?e2 = "(alone ''u1'' 1)\<lparr>insert_fault := Some connection_refused\<rparr>"
  have valid: "insertWaitlistRegistrationSchema ada = Inr ?d"
    by (simp add: ada_def insertWaitlistRegistrationSchema_def)
  have l1: "getWaitlistRegistrationByEmail (lookup_fault ?e1) (email ?d) empty_db = Inl connection_refused"
    by (simp add: eval_defs)
  have l2: "getWaitlistRegistrationByEmail (lookup_fault ?e2) (email ?d) empty_db = Inr None"
    by (simp add: eval_defs)
  have c2: "fst (createWaitlistRegistration (insert_fault ?e2) ?d (gen_random_uuid ?e2) (now ?e2)
           (concurrent_commits (concurrent ?e2) empty_db)) = Inl connection_refused"
    by (simp add: eval_defs)
  have cc: "concurrent_commits (concurrent ?e2) empty_db = empty_db"
    by (simp add: alone_def)
  have g: "getWaitlistCount (Some connection_refused) empty_db = Inl connection_refused"
    by (simp add: eval_defs)
  note t = store_errors_become_generic_500
  from t [of ada ?d ?e1 empty_db connection_refused, THEN conjunct1] valid l1
  have r1: "post_waitlist ?e1 ada empty_db = (internal_server_error, empty_db)" by blast
  from t [of ada ?d ?e2 empty_db connection_refused, THEN conjunct2, THEN conjunct1] valid l2 c2
  have r2: "post_waitlist ?e2 ada empty_db = (internal_server_error, empty_db)"
    by (simp only: cc simp_thms)
  from t [of ada ?d ?e1 empty_db connection_refused "Some connection_refused", THEN conjunct2, THEN conjunct2, THEN conjunct1] g
  have r3: "get_waitlist_count (Some connection_refused) empty_db = (internal_server_error, empty_db)"
    by blast
  show ?thesis
    by (simp only: r1 r2 r3 internal_server_error_def simp_thms)
qed

text \<open>
  C7. With the database answering, \<open>getWaitlistCount\<close> returns the number of rows of the
  waitlist table, which is 0 (a number, not an absent value) on the empty table, and the
  GET /api/waitlist/count handler answers 200 with exactly that number as \<open>count\<close>,
  leaving the database as it was.
\<close>

theorem count_returns_row_total:
  "getWaitlistCount None db = Inr (length (waitlistRegistrations db)) \<and>
   getWaitlistCount None \<lparr>users = us, waitlistRegistrations = []\<rparr> = Inr 0 \<and>
   get_waitlist_count None db =
     (\<lparr>status = 200,
       body = JObj [(''count'', JNum (int (length (waitlistRegistrations db))))]\<rparr>, db)"
  by (simp add: get_waitlist_count_def getWaitlistCount_def select_count_def)

text \<open>
  C8. Whenever POST /api/waitlist answers 201, the body has the keys \<open>message\<close> and
  \<open>registration\<close>, and the registration is the object of exactly \<open>id\<close>, \<open>firstName\<close>,
  \<open>lastName\<close>, \<open>email\<close>, in this order, read from the row just inserted; that row's
  \<open>createdAt\<close> is in the table and not in the answer.
\<close>

theorem created_response_fields:
  assumes "status (fst (post_waitlist ev b db)) = 201"
  shows "json_keys (body (fst (post_waitlist ev b db))) = [''message'', ''registration''] \<and>
         json_field ''registration'' (body (fst (post_waitlist ev b db))) =
           Some (JObj
             [(''id'', JStr (id' (last (waitlistRegistrations (snd (post_waitlist ev b db)))))),
              (''firstName'',
                 JStr (firstName (last (waitlistRegistrations (snd (post_waitlist ev b db)))))),
              (''lastName'',
                 JStr (lastName (last (waitlistRegistrations (snd (post_waitlist ev b db)))))),
              (''email'',
                 JStr (email (last (waitlistRegistrations (snd (post_waitlist ev b db))))))]) \<and>
         createdAt (last (waitlistRegistrations (snd (post_waitlist ev b db)))) = now ev"
proof -
  from post_created [OF assms] show ?thesis
  proof (elim exE conjE)
    fix d
    assume "insertWaitlistRegistrationSchema b = Inr d"
      and res: "fst (post_waitlist ev b db) =
            created \<lparr>firstName = firstName d, lastName = lastName d, email = email d,
                     id' = gen_random_uuid ev, createdAt = now ev\<rparr>"
      and rows: "waitlistRegistrations (snd (post_waitlist ev b db)) =
             waitlistRegistrations (concurrent_commits (concurrent ev) db) @
               [\<lparr>firstName = firstName d, lastName = lastName d, email = email d,
                 id' = gen_random_uuid ev, createdAt = now ev\<rparr>]"
    show ?thesis by (simp add: res rows created_def)
  qed
qed

theorem created_response_fields_witness:
  "status (fst (post_waitlist (alone ''u1'' 1) ada empty_db)) = 201 \<and>
   json_keys (body (fst (post_waitlist (alone ''u1'' 1) ada empty_db)))
     = [''message'', ''registration''] \<and>
   json_field ''registration'' (body (fst (post_waitlist (alone ''u1'' 1) ada empty_db)))
     = Some (JObj [(''id'', JStr ''u1''), (''firstName'', JStr ''Ada''),
                   (''lastName'', JStr ''Lovelace''), (''email'', JStr ''ada@example.com'')]) \<and>
   createdAt (last (waitlistRegistrations (snd (post_waitlist (alone ''u1'' 1) ada empty_db))))
     = 1"
proof -
  have s: "status (fst (post_waitlist (alone ''u1'' 1) ada empty_db)) = 201"
    by (simp add: eval_defs)
  show ?thesis
    using s created_response_fields [OF s]
    by (simp add: eval_defs)
qed

text \<open>
  C9. Neither handler touches the \<open>users\<close> table: POST /api/waitlist returns it as it
  was and keeps every row the waitlist table had (rows are only appended); its answer
  and its effect on the waitlist table are the same whatever the \<open>users\<close> table holds.
  GET /api/waitlist/count returns the whole database as it was, and its answer does not
  depend on the \<open>users\<close> table.
\<close>

theorem handlers_leave_users_alone:
  "users (snd (post_waitlist ev b db)) = users db \<and>
   take (length (waitlistRegistrations db))
     (waitlistRegistrations (snd (post_waitlist ev b db))) = waitlistRegistrations db \<and>
   post_waitlist ev b (db\<lparr>users := us\<rparr>) =
     (fst (post_waitlist ev b db), (snd (post_waitlist ev b db))\<lparr>users := us\<rparr>) \<and>
   snd (get_waitlist_count f db) = db \<and>
   fst (get_waitlist_count f (db\<lparr>users := us\<rparr>)) = fst (get_waitlist_count f db)"
  by (simp only: post_waitlist_users post_waitlist_take post_waitlist_users_update
        get_waitlist_count_snd get_waitlist_count_users_update simp_thms)

text \<open>
  C10. Two JSON-object bodies that agree on \<open>firstName\<close>, \<open>lastName\<close> and \<open>email\<close>
  (each present with the same value in both, or absent in both) are validated to the same
  result, and POST /api/waitlist gives the same answer and the same final database for
  both: no other key of the body is read.
\<close>

theorem post_reads_three_fields_only:
  assumes "map_of kvs1 ''firstName'' = map_of kvs2 ''firstName''"
      and "map_of kvs1 ''lastName'' = map_of kvs2 ''lastName''"
      and "map_of kvs1 ''email'' = map_of kvs2 ''email''"
  shows "insertWaitlistRegistrationSchema (JObj kvs1) = insertWaitlistRegistrationSchema (JObj kvs2)
       \<and> post_waitlist ev (JObj kvs1) db = post_waitlist ev (JObj kvs2) db"
proof -
  have "insertWaitlistRegistrationSchema (JObj kvs1) = insertWaitlistRegistrationSchema (JObj kvs2)"
    using assms by (simp add: insertWaitlistRegistrationSchema_def)
  then show ?thesis
    by (simp add: post_waitlist_def post_waitlist_try_def)
qed

theorem post_reads_three_fields_only_witness:
  "post_waitlist (alone ''u1'' 1)
     (JObj [(''firstName'', JStr ''Ada''), (''lastName'', JStr ''Lovelace''),
            (''email'', JStr ''ada@example.com''), (''id'', JStr ''chosen-by-caller''),
            (''createdAt'', JNum 0)]) empty_db
   = post_waitlist (alone ''u1'' 1) ada empty_db
   \<and> waitlistRegistrations (snd (post_waitlist (alone ''u1'' 1) ada empty_db))
     = [\<lparr>firstName = ''Ada'', lastName = ''Lovelace'', email = ''ada@example.com'',
         id' = ''u1'', createdAt = 1\<rparr>]"
proof -
  have "post_waitlist (alone ''u1'' 1)
     (JObj [(''firstName'', JStr ''Ada''), (''lastName'', JStr ''Lovelace''),
            (''email'', JStr ''ada@example.com''), (''id'', JStr ''chosen-by-caller''),
            (''createdAt'', JNum 0)]) empty_db
   = post_waitlist (alone ''u1'' 1) ada empty_db"
    unfolding ada_def
    by (rule post_reads_three_fields_only [THEN conjunct2]) simp_all
  moreover have "waitlistRegistrations (snd (post_waitlist (alone ''u1'' 1) ada empty_db))
     = [\<lparr>firstName = ''Ada'', lastName = ''Lovelace'', email = ''ada@example.com'',
         id' = ''u1'', createdAt = 1\<rparr>]"
    by (simp add: eval_defs)
  ultimately show ?thesis by simp
qed

end
